theory Spec2Isabelle
  imports Complex_Main "HOL-Library.Sublist" "HOL-Library.Char_ord" "HOL-Library.List_Lexorder"
    "HOL-Library.Multiset"
begin

section \<open>foam2py.helpers: loaders for OpenFOAM post-processing files\<close>

text \<open>
  A shallow embedding of \<^verbatim>\<open>src/foam2py/helpers.py\<close>. Python exceptions are values of
  the type \<open>error\<close>; a function that can raise returns \<open>error + 'a\<close> with \<open>Inl\<close> for
  the exception. Text is \<open>string\<close>; a file is the list of its lines as Python iterates
  them, each with its line terminator.
\<close>

subsection \<open>Exceptions\<close>

datatype error =
    ZeroDivisionError
  | TypeError
  | IndexError
  | AttributeError
  | FileNotFoundError
  | EmptyDataError
  | ValueError string

subsection \<open>Strings\<close>

text \<open>The line terminator \<^verbatim>\<open>'\n'\<close> and the separator \<^verbatim>\<open>'\t'\<close>.\<close>

definition newline :: char where
  "newline = CHR 0x0A"

definition tab :: char where
  "tab = CHR 0x09"

text \<open>\<^verbatim>\<open>s.startswith(p)\<close> is \<^term>\<open>prefix p s\<close>.\<close>

text \<open>\<^verbatim>\<open>s.split(sep)\<close> for a one-character separator: every occurrence splits, empty
  fields are kept, and the result is never empty.\<close>

fun split_on :: "char \<Rightarrow> string \<Rightarrow> string list" where
  "split_on sep [] = [[]]"
| "split_on sep (c # cs) =
     (if c = sep then [] # split_on sep cs
      else (case split_on sep cs of
              [] \<Rightarrow> [[c]]
            | w # ws \<Rightarrow> (c # w) # ws))"

text \<open>\<^verbatim>\<open>str(n)\<close> for a non-negative integer, as the f-strings format a component index.\<close>

definition digit_char :: "nat \<Rightarrow> char" where
  "digit_char d = ''0123456789'' ! d"

function str_nat :: "nat \<Rightarrow> string" where
  "str_nat n = (if n < 10 then [digit_char n] else str_nat (n div 10) @ [digit_char (n mod 10)])"
  by pat_completeness auto
termination
  by (relation "measure (\<lambda>n. n)") auto

declare str_nat.simps [simp del]

subsection \<open>Reading a file by lines\<close>

text \<open>The lines of a text, each keeping its \<^verbatim>\<open>'\n'\<close>; only the last line can lack one.
  This is what iterating an open file yields.\<close>

fun readlines :: "string \<Rightarrow> string list" where
  "readlines [] = []"
| "readlines (c # cs) =
     (if c = newline then [c] # readlines cs
      else (case readlines cs of
              [] \<Rightarrow> [[c]]
            | l # ls \<Rightarrow> (c # l) # ls))"

subsection \<open>\<^verbatim>\<open>get_header_size\<close> (helpers.py, lines 42 to 48)\<close>

text \<open>
  \<^verbatim>\<open>
  with open(filepath) as f:
      for index, line in enumerate(f):
          if not line.startswith(comment):
              return index - 1
  \<close>
  The loop carries the index of \<^verbatim>\<open>enumerate\<close>. When it runs off the end of the file,
  the Python function returns \<^verbatim>\<open>None\<close>: the result is an \<open>int option\<close>.
\<close>

fun header_scan :: "string \<Rightarrow> int \<Rightarrow> string list \<Rightarrow> int option" where
  "header_scan comment index [] = None"
| "header_scan comment index (line # rest) =
     (if \<not> prefix comment line then Some (index - 1)
      else header_scan comment (index + 1) rest)"

definition get_header_size :: "string \<Rightarrow> string list \<Rightarrow> int option" where
  "get_header_size comment lines = header_scan comment 0 lines"

subsection \<open>\<^verbatim>\<open>load_xy\<close>: column names from the file name (helpers.py, lines 113 to 143)\<close>

text \<open>
  \<^verbatim>\<open>components_count\<close> is an \<^verbatim>\<open>int\<close> in the call with \<^verbatim>\<open>pos\<close> and a \<^verbatim>\<open>float\<close>
  in the calls with the quotient of line 140 (\<^verbatim>\<open>/\<close> is true division). The quotient is
  kept exact as a rational; the comparisons with 1, 3 and 6 agree with those of the
  correctly rounded double for every column count below \<open>2^53\<close>.
\<close>

datatype pynum = PyInt int | PyFloat rat

fun num_val :: "pynum \<Rightarrow> rat" where
  "num_val (PyInt i) = of_int i"
| "num_val (PyFloat q) = q"

text \<open>\<^verbatim>\<open>range(components_count)\<close> accepts an \<^verbatim>\<open>int\<close> only.\<close>

fun py_range :: "pynum \<Rightarrow> error + nat list" where
  "py_range (PyInt i) = Inr [0..<nat i]"
| "py_range (PyFloat q) = Inl TypeError"

definition suffixed :: "string \<Rightarrow> string list \<Rightarrow> string list" where
  "suffixed field_name components = map (\<lambda>component. field_name @ ''.'' @ component) components"

definition field_components :: "string \<Rightarrow> pynum \<Rightarrow> error + string list" where
  "field_components field_name components_count =
     (if num_val components_count \<le> 1 then Inr [field_name]
      else if num_val components_count = 3 then Inr (suffixed field_name [''x'', ''y'', ''z''])
      else if num_val components_count = 6 then
        Inr (suffixed field_name [''xx'', ''xy'', ''xz'', ''yy'', ''yz'', ''zz''])
      else (case py_range components_count of
              Inl e \<Rightarrow> Inl e
            | Inr components \<Rightarrow> Inr (suffixed field_name (map str_nat components))))"

text \<open>\<^verbatim>\<open>a % b\<close> on integers: raises on a zero divisor, otherwise the remainder has the
  sign of the divisor, as \<open>mod\<close> on \<open>int\<close>.\<close>

definition py_mod :: "int \<Rightarrow> int \<Rightarrow> error + int" where
  "py_mod a b = (if b = 0 then Inl ZeroDivisionError else Inr (a mod b))"

definition py_truediv :: "int \<Rightarrow> int \<Rightarrow> error + pynum" where
  "py_truediv a b = (if b = 0 then Inl ZeroDivisionError else Inr (PyFloat (of_int a / of_int b)))"

text \<open>
  Lines 133 to 137:
  \<^verbatim>\<open>
  pos = 0
  if not (columns_count - 1) % len(field_names[1:]):
      pos = 1
  elif columns_count > 3 and not (columns_count - 3) % len(field_names[3:]):
      pos = 3
  \<close>
\<close>

definition first_field_pos :: "string list \<Rightarrow> int \<Rightarrow> error + nat" where
  "first_field_pos field_names columns_count =
     (case py_mod (columns_count - 1) (int (length (drop 1 field_names))) of
        Inl e \<Rightarrow> Inl e
      | Inr r1 \<Rightarrow>
          if r1 = 0 then Inr 1
          else if columns_count > 3 then
            (case py_mod (columns_count - 3) (int (length (drop 3 field_names))) of
               Inl e \<Rightarrow> Inl e
             | Inr r3 \<Rightarrow> if r3 = 0 then Inr 3 else Inr 0)
          else Inr 0)"

text \<open>The loop of lines 142 and 143, \<^verbatim>\<open>names += field_components(...)\<close>.\<close>

fun append_components :: "string list \<Rightarrow> pynum \<Rightarrow> string list \<Rightarrow> error + string list" where
  "append_components names components_count [] = Inr names"
| "append_components names components_count (field_name # rest) =
     (case field_components field_name components_count of
        Inl e \<Rightarrow> Inl e
      | Inr cs \<Rightarrow> append_components (names @ cs) components_count rest)"

text \<open>
  Lines 140 to 143:
  \<^verbatim>\<open>
  components_count = (columns_count - pos) / len(field_names[pos:])
  names = field_components(field_names[0], pos)
  for field_name in field_names[pos:]:
      names += field_components(field_name, components_count)
  \<close>
\<close>

definition construct_names :: "string list \<Rightarrow> int \<Rightarrow> nat \<Rightarrow> error + string list" where
  "construct_names field_names columns_count pos =
     (case py_truediv (columns_count - int pos) (int (length (drop pos field_names))) of
        Inl e \<Rightarrow> Inl e
      | Inr components_count \<Rightarrow>
          (case field_names of
             [] \<Rightarrow> Inl IndexError
           | first # _ \<Rightarrow>
               (case field_components first (PyInt (int pos)) of
                  Inl e \<Rightarrow> Inl e
                | Inr names \<Rightarrow> append_components names components_count (drop pos field_names))))"

definition infer_names :: "string list \<Rightarrow> int \<Rightarrow> error + string list" where
  "infer_names field_names columns_count =
     (case first_field_pos field_names columns_count of
        Inl e \<Rightarrow> Inl e
      | Inr pos \<Rightarrow> construct_names field_names columns_count pos)"

subsection \<open>\<^verbatim>\<open>count_columns\<close> (helpers.py, lines 27 to 33)\<close>

text \<open>\<^verbatim>\<open>s.count(sub)\<close>: the number of non-overlapping occurrences of \<open>sub\<close> in \<open>s\<close>,
  scanning from the left; the empty string occurs \<open>len(s) + 1\<close> times.\<close>

function str_count :: "string \<Rightarrow> string \<Rightarrow> nat" where
  "str_count sub s =
     (if sub = [] then length s + 1
      else if s = [] then 0
      else if prefix sub s then 1 + str_count sub (drop (length sub) s)
      else str_count sub (tl s))"
  by pat_completeness auto
termination
  by (relation "measure (\<lambda>(sub, s). length s)") auto

declare str_count.simps [simp del]

text \<open>
  \<^verbatim>\<open>linecache\<close> reads the file with \<^verbatim>\<open>readlines()\<close> and completes a last line that
  lacks its terminator:
  \<^verbatim>\<open>
  if lines and not lines[-1].endswith('\n'):
      lines[-1] += '\n'
  \<close>
  \<^verbatim>\<open>getline\<close> returns \<^verbatim>\<open>lines[lineno - 1]\<close> when \<^verbatim>\<open>1 <= lineno <= len(lines)\<close> and
  the empty string otherwise.
\<close>

definition linecache_getlines :: "string \<Rightarrow> string list" where
  "linecache_getlines content =
     (let lines = readlines content
      in if lines \<noteq> [] \<and> \<not> suffix [newline] (last lines)
         then butlast lines @ [last lines @ [newline]]
         else lines)"

definition linecache_getline :: "string \<Rightarrow> int \<Rightarrow> string" where
  "linecache_getline content lineno =
     (let lines = linecache_getlines content
      in if 1 \<le> lineno \<and> lineno \<le> int (length lines) then lines ! nat (lineno - 1) else [])"

text \<open>
  \<^verbatim>\<open>
  line = linecache.getline(str(Path(filepath)), line_no)
  return line.count(sep) + line.count('\n')
  \<close>
  The file is given by its content.
\<close>

definition count_columns :: "string \<Rightarrow> string \<Rightarrow> int \<Rightarrow> int" where
  "count_columns content sep line_no =
     (let line = linecache_getline content line_no
      in int (str_count sep line) + int (str_count [newline] line))"

text \<open>
  Lines 128 and 130, then the names of lines 133 to 143: the field names are the stem of
  the file name split at underscores, the column count comes from the first line.
\<close>

definition load_xy_names :: "string \<Rightarrow> string \<Rightarrow> error + string list" where
  "load_xy_names stem content =
     infer_names (split_on CHR ''_'' stem) (count_columns content [tab] 1)"

subsection \<open>Tables\<close>

text \<open>
  A pandas \<^verbatim>\<open>DataFrame\<close> as far as the loaders look at it: the name and the cells of the
  index, and the columns in their order, each with its label, its dtype and its cells.
  Floating-point numbers are never computed with, only parsed and moved: their type is the
  parameter \<open>'f\<close>. A cell of an \<^verbatim>\<open>object\<close> column is a Python string, an array (after
  line 61) or a missing value.
\<close>

datatype 'f cell = Num 'f | Str string | Arr "'f list" | NaN

datatype dtype = float64 | object

type_synonym 'f column = "string \<times> dtype \<times> 'f cell list"

record 'f frame =
  index_name :: "string option"
  index :: "'f cell list"
  columns :: "'f column list"

text \<open>Calls in sequence, the first exception ending the run.\<close>

fun traverse :: "('a \<Rightarrow> error + 'b) \<Rightarrow> 'a list \<Rightarrow> error + 'b list" where
  "traverse f [] = Inr []"
| "traverse f (x # xs) =
     (case f x of
        Inl e \<Rightarrow> Inl e
      | Inr y \<Rightarrow> (case traverse f xs of Inl e \<Rightarrow> Inl e | Inr ys \<Rightarrow> Inr (y # ys)))"

text \<open>A \<^verbatim>\<open>for\<close> loop whose body updates the state \<open>s\<close> or raises.\<close>

fun for_each :: "('a \<Rightarrow> 's \<Rightarrow> error + 's) \<Rightarrow> 'a list \<Rightarrow> 's \<Rightarrow> error + 's" where
  "for_each body [] s = Inr s"
| "for_each body (x # xs) s =
     (case body x s of Inl e \<Rightarrow> Inl e | Inr s' \<Rightarrow> for_each body xs s')"

subsection \<open>\<^verbatim>\<open>unnest_columns\<close> (helpers.py, lines 50 to 71)\<close>

text \<open>The characters at which \<^verbatim>\<open>str.split()\<close> and \<^verbatim>\<open>str.strip()\<close> without argument
  cut, within ASCII.\<close>

definition is_space :: "char \<Rightarrow> bool" where
  "is_space c \<longleftrightarrow> c \<in> set [CHR 0x09, CHR 0x0A, CHR 0x0B, CHR 0x0C, CHR 0x0D,
                             CHR 0x1C, CHR 0x1D, CHR 0x1E, CHR 0x1F, CHR 0x20]"

fun words_from :: "string \<Rightarrow> string \<Rightarrow> string list" where
  "words_from w [] = (if w = [] then [] else [w])"
| "words_from w (c # cs) =
     (if is_space c then (if w = [] then words_from [] cs else w # words_from [] cs)
      else words_from (w @ [c]) cs)"

definition py_split :: "string \<Rightarrow> string list" where
  "py_split s = words_from [] s"

definition py_strip :: "string \<Rightarrow> string" where
  "py_strip s = rev (dropWhile is_space (rev (dropWhile is_space s)))"

text \<open>\<^verbatim>\<open>s.replace(c, '')\<close> for a one-character \<open>c\<close>.\<close>

definition remove_char :: "char \<Rightarrow> string \<Rightarrow> string" where
  "remove_char c s = filter (\<lambda>x. x \<noteq> c) s"

text \<open>
  \<^verbatim>\<open>re.match(rf'.*?{REGEX_FLOAT}', s)\<close> with
  \<^verbatim>\<open>REGEX_FLOAT = r'[+-]?(\d+(\.\d*)?|\.\d+)([eE][+-]?\d+)?'\<close>. The optional parts can
  match the empty string, so \<^verbatim>\<open>REGEX_FLOAT\<close> matches at a position when a mantissa
  starts there, after an optional sign: a digit, or a dot followed by a digit. The lazy
  prefix \<^verbatim>\<open>.*?\<close> moves the position over any characters but a line terminator.
\<close>

definition is_digit :: "char \<Rightarrow> bool" where
  "is_digit c \<longleftrightarrow> c \<in> set ''0123456789''"

fun starts_mantissa :: "string \<Rightarrow> bool" where
  "starts_mantissa [] = False"
| "starts_mantissa [c] = is_digit c"
| "starts_mantissa (c # d # _) = (is_digit c \<or> (c = CHR ''.'' \<and> is_digit d))"

fun starts_float :: "string \<Rightarrow> bool" where
  "starts_float [] = False"
| "starts_float (c # cs) =
     (((c = CHR ''+'' \<or> c = CHR ''-'') \<and> starts_mantissa cs) \<or> starts_mantissa (c # cs))"

fun re_match_float :: "string \<Rightarrow> bool" where
  "re_match_float [] = False"
| "re_match_float (c # cs) = (starts_float (c # cs) \<or> (c \<noteq> newline \<and> re_match_float cs))"

text \<open>
  Lines 58 to 60, the function applied to every cell:
  \<^verbatim>\<open>
  fn = lambda cell: np.array(cell.replace('(', '').replace(')', '').split(), dtype=float)
  \<close>
  \<open>to_float\<close> is numpy's conversion of one string to a float, \<open>None\<close> where it raises
  \<^verbatim>\<open>ValueError\<close>. A cell that is not a string has no \<^verbatim>\<open>replace\<close>.
\<close>

definition float_of :: "(string \<Rightarrow> 'f option) \<Rightarrow> string \<Rightarrow> error + 'f" where
  "float_of to_float token =
     (case to_float token of
        None \<Rightarrow> Inl (ValueError (''could not convert string to float: '' @ token))
      | Some x \<Rightarrow> Inr x)"

fun fn :: "(string \<Rightarrow> 'f option) \<Rightarrow> 'f cell \<Rightarrow> error + 'f list" where
  "fn to_float (Str cell) =
     traverse (float_of to_float) (py_split (remove_char CHR '')'' (remove_char CHR ''('' cell)))"
| "fn to_float _ = Inl AttributeError"

text \<open>
  \<^verbatim>\<open>np.array(dat[key].to_list())\<close> on a list of one-dimensional float arrays, as numpy
  1.24 and later build it: a two-dimensional array when all have one length, and a
  \<^verbatim>\<open>ValueError\<close> (inhomogeneous shape) otherwise. (Earlier versions build a
  one-dimensional array of objects and line 67 raises \<^verbatim>\<open>IndexError\<close> on its first
  use.) \<open>shape_last\<close> is \<^verbatim>\<open>field.shape[-1]\<close> of the result.
\<close>

definition inhomogeneous_shape :: error where
  "inhomogeneous_shape =
     ValueError ''setting an array element with a sequence. The requested array has an inhomogeneous shape''"

definition np_array :: "'f list list \<Rightarrow> error + 'f list list" where
  "np_array rows =
     (if \<forall>r \<in> set rows. length r = length (hd rows) then Inr rows
      else Inl inhomogeneous_shape)"

definition shape_last :: "'f list list \<Rightarrow> nat" where
  "shape_last field = (case field of [] \<Rightarrow> 0 | r # _ \<Rightarrow> length r)"

text \<open>The labels of a table, and \<^verbatim>\<open>dat[key]\<close> for a label that occurs once.\<close>

definition labels :: "'f column list \<Rightarrow> string list" where
  "labels cols = map fst cols"

definition cells_of :: "string \<Rightarrow> 'f column list \<Rightarrow> 'f cell list" where
  "cells_of key cols = concat (map (\<lambda>c. snd (snd c)) (filter (\<lambda>c. fst c = key) cols))"

text \<open>\<^verbatim>\<open>dat[key] = values\<close> for an existing label: the cells are replaced in place, and
  a column of arrays has dtype \<^verbatim>\<open>object\<close>.\<close>

definition assign_column :: "string \<Rightarrow> 'f cell list \<Rightarrow> 'f column list \<Rightarrow> 'f column list" where
  "assign_column key values cols =
     map (\<lambda>c. if fst c = key then (key, object, values) else c) cols"

text \<open>\<^verbatim>\<open>dat.insert(loc, column, value)\<close>: refuses a label the table already has, and a
  position beyond its end.\<close>

definition insert_column ::
  "nat \<Rightarrow> string \<Rightarrow> 'f cell list \<Rightarrow> 'f column list \<Rightarrow> error + 'f column list" where
  "insert_column loc column value cols =
     (if column \<in> set (labels cols) then
        Inl (ValueError (''cannot insert '' @ column @ '', already exists''))
      else if loc > length cols then Inl IndexError
      else Inr (take loc cols @ [(column, float64, value)] @ drop loc cols))"

text \<open>\<^verbatim>\<open>dat.columns.to_list().index(key)\<close>.\<close>

fun index_of :: "string \<Rightarrow> string list \<Rightarrow> error + nat" where
  "index_of key [] = Inl (ValueError (key @ '' is not in list''))"
| "index_of key (l # ls) =
     (if l = key then Inr 0
      else (case index_of key ls of Inl e \<Rightarrow> Inl e | Inr i \<Rightarrow> Inr (Suc i)))"

text \<open>
  Lines 65 to 67, the body of the loop over \<^verbatim>\<open>range(field.shape[-1])\<close>:
  \<^verbatim>\<open>
  dat.insert(pos + component, f'{key}.{component}', field[:, component])
  \<close>
\<close>

definition component_label :: "string \<Rightarrow> nat \<Rightarrow> string" where
  "component_label key component = key @ ''.'' @ str_nat component"

definition component_cells :: "'f list list \<Rightarrow> nat \<Rightarrow> 'f cell list" where
  "component_cells field component = map (\<lambda>row. Num (row ! component)) field"

definition insert_component ::
  "nat \<Rightarrow> string \<Rightarrow> 'f list list \<Rightarrow> nat \<Rightarrow> 'f column list \<Rightarrow> error + 'f column list" where
  "insert_component pos key field component cols =
     insert_column (pos + component) (component_label key component)
       (component_cells field component) cols"

text \<open>
  Lines 55 to 69, the body of the loop over the columns. The state is the table's columns
  and \<^verbatim>\<open>nested_columns\<close>. \<^verbatim>\<open>dat[key].iloc[-1]\<close> raises \<^verbatim>\<open>IndexError\<close> on a table
  without rows; for a label that occurs twice \<^verbatim>\<open>dat[key]\<close> is a table, its last row is
  no string and \<^verbatim>\<open>re.match\<close> raises \<^verbatim>\<open>TypeError\<close>, as it does for a last cell that is
  a missing value.
\<close>

definition expand_column ::
  "(string \<Rightarrow> 'f option) \<Rightarrow> string \<Rightarrow> 'f column list \<times> string list \<Rightarrow>
     error + 'f column list \<times> string list" where
  "expand_column to_float key st =
     (case traverse (fn to_float) (cells_of key (fst st)) of
        Inl e \<Rightarrow> Inl e
      | Inr arrays \<Rightarrow>
          (let cols = assign_column key (map Arr arrays) (fst st)
           in case index_of key (labels cols) of
                Inl e \<Rightarrow> Inl e
              | Inr i \<Rightarrow>
                  (case np_array arrays of
                     Inl e \<Rightarrow> Inl e
                   | Inr field \<Rightarrow>
                       (case for_each (insert_component (i + 1) key field)
                               [0..<shape_last field] cols of
                          Inl e \<Rightarrow> Inl e
                        | Inr cols' \<Rightarrow> Inr (cols', snd st @ [key])))))"

definition unnest_column ::
  "(string \<Rightarrow> 'f option) \<Rightarrow> string \<times> dtype \<Rightarrow> 'f column list \<times> string list \<Rightarrow>
     error + 'f column list \<times> string list" where
  "unnest_column to_float kd st =
     (if snd kd \<noteq> object then Inr st
      else if cells_of (fst kd) (fst st) = [] then Inl IndexError
      else if length (filter (\<lambda>l. l = fst kd) (labels (fst st))) \<noteq> 1 then Inl TypeError
      else (case last (cells_of (fst kd) (fst st)) of
              Str s \<Rightarrow> if re_match_float s then expand_column to_float (fst kd) st else Inr st
            | _ \<Rightarrow> Inl TypeError))"

text \<open>
  The whole function. \<^verbatim>\<open>zip(dat, dat.dtypes)\<close> is taken from the table as it is on
  entry: the labels and dtypes the loop runs over do not change when columns are
  inserted. Line 71 drops every column whose label is in \<^verbatim>\<open>nested_columns\<close>.
\<close>

definition unnest_columns :: "(string \<Rightarrow> 'f option) \<Rightarrow> 'f frame \<Rightarrow> error + 'f frame" where
  "unnest_columns to_float dat =
     (case for_each (unnest_column to_float) (map (\<lambda>c. (fst c, fst (snd c))) (columns dat))
             (columns dat, []) of
        Inl e \<Rightarrow> Inl e
      | Inr st \<Rightarrow> Inr (dat\<lparr>columns := filter (\<lambda>c. fst c \<notin> set (snd st)) (fst st)\<rparr>))"

subsection \<open>\<^verbatim>\<open>load\<close> (helpers.py, lines 73 to 92)\<close>

text \<open>
  Lines 84 and 85, the argument \<^verbatim>\<open>skiprows\<close>:
  \<^verbatim>\<open>
  lambda n: n > header_pos and n % use_nth
            if not use_nth is None and use_nth >= 2 else None
  \<close>
  The conditional expression is the body of the lambda. pandas calls it with the
  zero-based number of each line of the file and skips the line when the result is true;
  \<^verbatim>\<open>None\<close> and \<^verbatim>\<open>0\<close> are false. Comparing an integer with \<^verbatim>\<open>None\<close> raises
  \<^verbatim>\<open>TypeError\<close>.
\<close>

definition skiprows :: "int option \<Rightarrow> int option \<Rightarrow> int \<Rightarrow> error + bool" where
  "skiprows header_pos use_nth n =
     (case use_nth of
        None \<Rightarrow> Inr False
      | Some k \<Rightarrow>
          if k \<ge> 2 then
            (case header_pos of
               None \<Rightarrow> Inl TypeError
             | Some h \<Rightarrow> Inr (n > h \<and> n mod k \<noteq> 0))
          else Inr False)"

text \<open>The lines that \<^verbatim>\<open>skiprows\<close> leaves, \<open>n\<close> being the number of the first line of
  the list.\<close>

fun kept_rows :: "(int \<Rightarrow> error + bool) \<Rightarrow> int \<Rightarrow> string list \<Rightarrow> error + string list" where
  "kept_rows skip n [] = Inr []"
| "kept_rows skip n (l # ls) =
     (case skip n of
        Inl e \<Rightarrow> Inl e
      | Inr b \<Rightarrow>
          (case kept_rows skip (n + 1) ls of
             Inl e \<Rightarrow> Inl e
           | Inr rows \<Rightarrow> Inr (if b then rows else l # rows)))"

text \<open>
  What \<^verbatim>\<open>pd.read_csv\<close> reads as the header row and as the data rows, after its
  documentation: a negative \<^verbatim>\<open>header\<close> is refused, \<^verbatim>\<open>header=h\<close> takes the row \<open>h\<close>
  of the lines that are not skipped as the column labels and the rows after it as data,
  \<^verbatim>\<open>header=None\<close> takes every row as data.
\<close>

definition negative_header :: error where
  "negative_header =
     ValueError ''Passing negative integer to header is invalid. For no header, use header=None instead''"

definition select_rows ::
  "int option \<Rightarrow> (int \<Rightarrow> error + bool) \<Rightarrow> string list \<Rightarrow> error + string option \<times> string list" where
  "select_rows header skip lines =
     (case header of
        None \<Rightarrow>
          (case kept_rows skip 0 lines of
             Inl e \<Rightarrow> Inl e
           | Inr rows \<Rightarrow> if rows = [] then Inl EmptyDataError else Inr (None, rows))
      | Some h \<Rightarrow>
          if h < 0 then Inl negative_header
          else
            (case kept_rows skip 0 lines of
               Inl e \<Rightarrow> Inl e
             | Inr rows \<Rightarrow>
                 if nat h < length rows then Inr (Some (rows ! nat h), drop (Suc (nat h)) rows)
                 else Inl (ValueError ''Passed header but too few lines in file'')))"

text \<open>
  The rest of \<^verbatim>\<open>pd.read_csv\<close>, splitting the rows at the separator and choosing the
  dtype of each column, is the parameter \<open>parse\<close>: it gets the header row, the data rows
  and \<^verbatim>\<open>usecols\<close>. Without a header row the index of the table is named by the
  integer 0, which is no string: the model writes \<open>None\<close> for its name.
\<close>

type_synonym 'f parser = "string option \<Rightarrow> string list \<Rightarrow> nat list option \<Rightarrow> error + 'f frame"

definition read_csv ::
  "'f parser \<Rightarrow> int option \<Rightarrow> nat list option \<Rightarrow> (int \<Rightarrow> error + bool) \<Rightarrow> string list \<Rightarrow>
     error + 'f frame" where
  "read_csv parse header usecols skip lines =
     (case select_rows header skip lines of
        Inl e \<Rightarrow> Inl e
      | Inr (None, rows) \<Rightarrow>
          (case parse None rows usecols of
             Inl e \<Rightarrow> Inl e
           | Inr dat \<Rightarrow> Inr (dat\<lparr>index_name := None\<rparr>))
      | Inr (Some names, rows) \<Rightarrow> parse (Some names) rows usecols)"

text \<open>
  \<^verbatim>\<open>
  header_pos = get_header_size(filepath)
  dat = pd.read_csv(filepath, sep='\t', header=header_pos, index_col=0,
                    usecols=(usecols if usecols is None else ([0] + usecols)),
                    skiprows=...)
  dat.index.name = dat.index.name.replace('#', '').strip()
  dat.columns = dat.columns.str.strip()
  return unnest_columns(dat)
  \<close>
  The file is given by its lines. \<open>strip_names\<close> is lines 89 and 90: the name of the
  index is no string, and has no \<^verbatim>\<open>replace\<close>, when the table was read without a header
  row. \<open>after_read_csv\<close> is what follows the call of \<^verbatim>\<open>pd.read_csv\<close>, lines 89 to 92,
  on its outcome: an exception of \<^verbatim>\<open>pd.read_csv\<close> ends the call of \<^verbatim>\<open>load\<close>.
\<close>

definition strip_names :: "'f frame \<Rightarrow> error + 'f frame" where
  "strip_names dat =
     (case index_name dat of
        None \<Rightarrow> Inl AttributeError
      | Some name \<Rightarrow>
          Inr (dat\<lparr>index_name := Some (py_strip (remove_char CHR ''#'' name)),
                   columns := map (\<lambda>c. (py_strip (fst c), snd c)) (columns dat)\<rparr>))"

definition after_read_csv :: "(string \<Rightarrow> 'f option) \<Rightarrow> error + 'f frame \<Rightarrow> error + 'f frame" where
  "after_read_csv to_float read =
     (case read of
        Inl e \<Rightarrow> Inl e
      | Inr dat \<Rightarrow>
          (case strip_names dat of
             Inl e \<Rightarrow> Inl e
           | Inr named \<Rightarrow> unnest_columns to_float named))"

definition load ::
  "'f parser \<Rightarrow> (string \<Rightarrow> 'f option) \<Rightarrow> nat list option \<Rightarrow> int option \<Rightarrow> string list \<Rightarrow>
     error + 'f frame" where
  "load parse to_float usecols use_nth lines =
     (let header_pos = get_header_size ''#'' lines
      in after_read_csv to_float
           (read_csv parse header_pos (map_option (\<lambda>u. 0 # u) usecols)
              (skiprows header_pos use_nth) lines))"

subsection \<open>\<^verbatim>\<open>load_dat\<close> (helpers.py, lines 94 to 104)\<close>

text \<open>
  A path is the list of its parts; \<^verbatim>\<open>Path\<close> objects compare by their parts, strings
  by their characters. The file system maps a path to a file with its content or to a
  directory with the list \<^verbatim>\<open>filepath.rglob('*.dat')\<close> yields for it, in the order the
  file system gives.
\<close>

type_synonym path = "string list"

datatype entry = File string | Dir "path list"

definition path_name :: "path \<Rightarrow> string" where
  "path_name p = (if p = [] then [] else last p)"

text \<open>\<^verbatim>\<open>str(filepath)\<close>: the parts joined by \<^verbatim>\<open>/\<close>, after the root \<^verbatim>\<open>/\<close> when the path
  is absolute; the empty path is \<^verbatim>\<open>.\<close>.\<close>

fun join_parts :: "string list \<Rightarrow> string" where
  "join_parts [] = []"
| "join_parts [part] = part"
| "join_parts (part # rest) = part @ ''/'' @ join_parts rest"

definition path_str :: "path \<Rightarrow> string" where
  "path_str p =
     (case p of
        [] \<Rightarrow> ''.''
      | anchor # rest \<Rightarrow> if anchor = ''/'' then anchor @ join_parts rest else join_parts p)"

text \<open>
  \<^verbatim>\<open>pd.concat\<close> of tables along the rows, after its documentation: the indexes are
  appended as they are, columns are matched by label (by position when all tables have
  the same labels), a column a table lacks is filled with missing values, and a table
  with a repeated label cannot be matched with different labels.
\<close>

definition join_dtype :: "dtype \<Rightarrow> dtype \<Rightarrow> dtype" where
  "join_dtype a b = (if a = float64 \<and> b = float64 then float64 else object)"

definition append_columns :: "'f column list \<Rightarrow> 'f column list \<Rightarrow> 'f column list" where
  "append_columns a b =
     map (\<lambda>(x, y). (fst x, join_dtype (fst (snd x)) (fst (snd y)), snd (snd x) @ snd (snd y)))
       (zip a b)"

definition column_or_missing :: "string \<Rightarrow> 'f frame \<Rightarrow> dtype \<times> 'f cell list" where
  "column_or_missing name dat =
     (case filter (\<lambda>c. fst c = name) (columns dat) of
        [] \<Rightarrow> (float64, replicate (length (index dat)) NaN)
      | c # _ \<Rightarrow> snd c)"

definition joined_column :: "'f frame list \<Rightarrow> string \<Rightarrow> 'f column" where
  "joined_column objs name =
     (name,
      foldr join_dtype (map (\<lambda>d. fst (column_or_missing name d)) objs) float64,
      concat (map (\<lambda>d. snd (column_or_missing name d)) objs))"

definition pd_concat :: "'f frame list \<Rightarrow> error + 'f frame" where
  "pd_concat objs =
     (case objs of
        [] \<Rightarrow> Inl (ValueError ''No objects to concatenate'')
      | first # others \<Rightarrow>
          (let name = (if \<forall>d \<in> set others. index_name d = index_name first
                       then index_name first else None);
               idx = concat (map index objs)
           in if \<forall>d \<in> set others. labels (columns d) = labels (columns first) then
                Inr \<lparr>index_name = name, index = idx,
                     columns = foldl append_columns (columns first) (map columns others)\<rparr>
              else if \<exists>d \<in> set objs. \<not> distinct (labels (columns d)) then
                Inl (ValueError ''Reindexing only valid with uniquely valued Index objects'')
              else
                Inr \<lparr>index_name = name, index = idx,
                     columns = map (joined_column objs)
                                 (rev (remdups (rev (concat (map (\<lambda>d. labels (columns d)) objs)))))\<rparr>))"

text \<open>
  \<^verbatim>\<open>
  filepath = Path(filepath)
  if filepath.is_dir():
      filepaths = list(filepath.rglob('*.dat'))
      if len({fp.name for fp in filepaths}) != 1:
          raise ValueError(f'{filepath} is not valid')
      return pd.concat([load(dat_file) for dat_file in sorted(filepaths)])
  return load(filepath)
  \<close>
\<close>

definition load_file ::
  "'f parser \<Rightarrow> (string \<Rightarrow> 'f option) \<Rightarrow> (path \<Rightarrow> entry option) \<Rightarrow> nat list option \<Rightarrow>
     int option \<Rightarrow> path \<Rightarrow> error + 'f frame" where
  "load_file parse to_float fs usecols use_nth filepath =
     (case fs filepath of
        Some (File content) \<Rightarrow> load parse to_float usecols use_nth (readlines content)
      | _ \<Rightarrow> Inl FileNotFoundError)"

definition load_dat ::
  "'f parser \<Rightarrow> (string \<Rightarrow> 'f option) \<Rightarrow> (path \<Rightarrow> entry option) \<Rightarrow> nat list option \<Rightarrow>
     int option \<Rightarrow> path \<Rightarrow> error + 'f frame" where
  "load_dat parse to_float fs usecols use_nth filepath =
     (case fs filepath of
        Some (Dir filepaths) \<Rightarrow>
          if length (remdups (map path_name filepaths)) \<noteq> 1 then
            Inl (ValueError (path_str filepath @ '' is not valid''))
          else
            (case traverse (load_file parse to_float fs usecols use_nth) (sort filepaths) of
               Inl e \<Rightarrow> Inl e
             | Inr frames \<Rightarrow> pd_concat frames)
      | _ \<Rightarrow> load_file parse to_float fs usecols use_nth filepath)"

text \<open>
  The decimation the specification describes, for comparison: of the rows after the
  header row \<open>h\<close>, those whose offset beyond it is divisible by \<open>k\<close>.
\<close>

definition spec_decimated :: "nat \<Rightarrow> nat \<Rightarrow> string list \<Rightarrow> string list" where
  "spec_decimated h k lines =
     map (\<lambda>n. lines ! n) (filter (\<lambda>n. (n - h) mod k = 0) [Suc h..<length lines])"

subsection \<open>Example inputs\<close>

text \<open>
  A parser that keeps the header row as the name of the index and every data row as one
  index cell, and a case directory with two runs of the same function object:
  \<^verbatim>\<open>case/0/forces.dat\<close> with two rows and \<^verbatim>\<open>case/100/forces.dat\<close> with one, listed
  by the file system in the opposite order.
\<close>

definition rows_parser :: "unit parser" where
  "rows_parser names rows usecols = Inr \<lparr>index_name = names, index = map Str rows, columns = []\<rparr>"

definition forces_case :: "path \<Rightarrow> entry option" where
  "forces_case p =
     (if p = [''case''] then
        Some (Dir [[''case'', ''100'', ''forces.dat''], [''case'', ''0'', ''forces.dat'']])
      else if p = [''case'', ''0'', ''forces.dat''] then
        Some (File (''# t'' @ [newline] @ ''1'' @ [newline] @ ''2'' @ [newline]))
      else if p = [''case'', ''100'', ''forces.dat''] then
        Some (File (''# t'' @ [newline] @ ''5'' @ [newline]))
      else None)"

definition mixed_case :: "path \<Rightarrow> entry option" where
  "mixed_case p =
     (if p = [''case''] then
        Some (Dir [[''case'', ''0'', ''U.dat''], [''case'', ''0'', ''p.dat'']])
      else None)"

text \<open>
  Files for the examples, given by their lines and the fields of a line: an empty file, a
  file of one comment line, a file that starts with data, files with one, two and three
  comment lines before the data rows, and two files with a vector column \<^verbatim>\<open>U\<close>, in
  the second of which the second cell of \<^verbatim>\<open>U\<close> lacks a component.
\<close>

definition tabbed :: "string list \<Rightarrow> string" where
  "tabbed ws = (case ws of [] \<Rightarrow> [] | w # rest \<Rightarrow> foldl (\<lambda>a b. a @ [tab] @ b) w rest)"

definition file_of_lines :: "string list \<Rightarrow> string" where
  "file_of_lines ls = concat (map (\<lambda>l. l @ [newline]) ls)"

definition one_header :: string where
  "one_header = file_of_lines [''# t'', ''r1'', ''r2'', ''r3'', ''r4'']"

definition two_headers :: string where
  "two_headers = file_of_lines [''# a'', ''# t'', ''r1'', ''r2'', ''r3'', ''r4'']"

definition three_headers :: string where
  "three_headers = file_of_lines [''# case'', ''# run'', ''# t'', ''0.1'', ''0.2'']"

definition vector_file :: string where
  "vector_file =
     file_of_lines [tabbed [''# Time'', ''p'', ''U'', ''k''],
                    tabbed [''0'', ''5'', ''(1 2 3)'', ''7''],
                    tabbed [''1'', ''6'', ''(4 5 6)'', ''8'']]"

definition ragged_file :: string where
  "ragged_file =
     file_of_lines [tabbed [''# Time'', ''p'', ''U''],
                    tabbed [''0'', ''5'', ''(1 2 3)''],
                    tabbed [''1'', ''6'', ''(4 5)'']]"

definition monitor_case :: "path \<Rightarrow> entry option" where
  "monitor_case p =
     (if p = [''empty.dat''] then Some (File [])
      else if p = [''comments.dat''] then Some (File (file_of_lines [''# t'']))
      else if p = [''data.dat''] then Some (File (file_of_lines [tabbed [''1'', ''2'']]))
      else if p = [''one.dat''] then Some (File one_header)
      else if p = [''two.dat''] then Some (File two_headers)
      else if p = [''three.dat''] then Some (File three_headers)
      else if p = [''vector.dat''] then Some (File vector_file)
      else if p = [''ragged.dat''] then Some (File ragged_file)
      else None)"






section \<open>Properties\<close>

subsection \<open>Header boundary\<close>

lemma header_scan_all_comment:
  "\<forall>l\<in>set ls. prefix c l \<Longrightarrow> header_scan c i ls = None"
  by (induction ls arbitrary: i) auto

lemma header_scan_first_data:
  "\<forall>l\<in>set cs. prefix c l \<Longrightarrow> \<not> prefix c d \<Longrightarrow>
     header_scan c i (cs @ d # rest) = Some (i + int (length cs) - 1)"
  by (induction cs arbitrary: i) auto

subsection \<open>Counting columns\<close>


lemma str_count_char: "str_count [c] s = count_list s c"
proof (induction s)
  case Nil
  then show ?case by (simp add: str_count.simps)
next
  case (Cons a s)
  then show ?case by (subst str_count.simps) (auto)
qed

lemma readlines_shape:
  "l \<in> set (readlines s) \<Longrightarrow> l \<noteq> [] \<and> newline \<notin> set (butlast l)"
proof (induction s arbitrary: l)
  case Nil
  then show ?case by simp
next
  case (Cons c cs)
  show ?case
  proof (cases "c = newline")
    case True
    with Cons show ?thesis by auto
  next
    case False
    with Cons show ?thesis by (cases "readlines cs") (auto)
  qed
qed

lemma readlines_inner_terminated:
  "l \<in> set (butlast (readlines s)) \<Longrightarrow> last l = newline"
proof (induction s arbitrary: l)
  case Nil
  then show ?case by simp
next
  case (Cons c cs)
  show ?case
  proof (cases "c = newline")
    case True
    with Cons show ?thesis by (auto split: if_splits)
  next
    case False
    show ?thesis
    proof (cases "readlines cs")
      case Nil
      with False Cons.prems show ?thesis by simp
    next
      case rl: (Cons l' ls)
      show ?thesis
      proof (cases "ls = []")
        case True
        with rl False Cons.prems show ?thesis by simp
      next
        case ne: False
        have bl: "butlast (readlines cs) = l' # butlast ls" using rl ne by simp
        have l'ne: "l' \<noteq> []" using readlines_shape[of l' cs] rl by simp
        have l'last: "last l' = newline" using Cons.IH[of l'] bl by simp
        from rl False ne Cons.prems have "l = c # l' \<or> l \<in> set (butlast ls)" by simp
        then show ?thesis
        proof
          assume "l = c # l'"
          then show ?thesis using l'ne l'last by simp
        next
          assume "l \<in> set (butlast ls)"
          then show ?thesis using Cons.IH[of l] bl by simp
        qed
      qed
    qed
  qed
qed


lemma in_butlast_or_last: "xs \<noteq> [] \<Longrightarrow> x \<in> set xs \<Longrightarrow> x \<in> set (butlast xs) \<or> x = last xs"
  by (induction xs) auto

lemma notin_butlast_last: "l \<noteq> [] \<Longrightarrow> c \<notin> set (butlast l) \<Longrightarrow> last l \<noteq> c \<Longrightarrow> c \<notin> set l"
  by (induction l) (auto split: if_splits)

lemma suffix_single_iff: "suffix [c] l \<longleftrightarrow> l \<noteq> [] \<and> last l = c"
proof
  assume "suffix [c] l"
  then show "l \<noteq> [] \<and> last l = c" by (auto simp: suffix_def)
next
  assume a: "l \<noteq> [] \<and> last l = c"
  then have "butlast l @ [c] = l" by (simp add: snoc_eq_iff_butlast)
  then show "suffix [c] l" unfolding suffix_def by (rule exI[of _ "butlast l", OF sym])
qed

lemma linecache_line_shape:
  assumes "l \<in> set (linecache_getlines s)"
  shows "l \<noteq> [] \<and> newline \<notin> set (butlast l) \<and> last l = newline"
proof -
  define ls where "ls = readlines s"
  have sh: "\<And>x. x \<in> set ls \<Longrightarrow> x \<noteq> [] \<and> newline \<notin> set (butlast x)"
    using readlines_shape ls_def by blast
  have inner: "\<And>x. x \<in> set (butlast ls) \<Longrightarrow> last x = newline"
    using readlines_inner_terminated ls_def by blast
  show ?thesis
  proof (cases "ls \<noteq> [] \<and> \<not> suffix [newline] (last ls)")
    case True
    then have ne: "ls \<noteq> []" and ns: "\<not> suffix [newline] (last ls)" by simp_all
    have lastin: "last ls \<in> set ls" using ne by simp
    have lne: "last ls \<noteq> []" using sh lastin by blast
    have nl: "last (last ls) \<noteq> newline" using ns lne by (simp add: suffix_single_iff)
    have nonl: "newline \<notin> set (last ls)"
      using notin_butlast_last[OF lne _ nl] sh lastin by blast
    from True assms have "l \<in> set (butlast ls) \<or> l = last ls @ [newline]"
      by (auto simp: linecache_getlines_def ls_def Let_def)
    then show ?thesis
    proof
      assume b: "l \<in> set (butlast ls)"
      then have "l \<in> set ls" by (rule in_set_butlastD)
      with sh inner b show ?thesis by blast
    next
      assume "l = last ls @ [newline]"
      with nonl show ?thesis by simp
    qed
  next
    case False
    with assms have lin: "l \<in> set ls" by (auto simp: linecache_getlines_def ls_def Let_def)
    then have ne: "ls \<noteq> []" by auto
    with False have suf: "suffix [newline] (last ls)" by simp
    from in_butlast_or_last[OF ne lin] show ?thesis
    proof
      assume b: "l \<in> set (butlast ls)"
      with sh inner lin show ?thesis by blast
    next
      assume "l = last ls"
      with suf sh lin show ?thesis by (simp add: suffix_single_iff)
    qed
  qed
qed

lemma one_newline:
  assumes "l \<noteq> []" "newline \<notin> set (butlast l)" "last l = newline"
  shows "count_list l newline = 1"
proof -
  have "butlast l @ [newline] = l" using assms by (simp add: snoc_eq_iff_butlast)
  then have "count_list l newline = count_list (butlast l @ [newline]) newline" by simp
  also have "\<dots> = count_list (butlast l) newline + 1" by simp
  also have "\<dots> = 1" using assms(2) by (simp add: count_list_0_iff)
  finally show ?thesis .
qed

text \<open>
  Claim C8. For every file and every line that \<open>line_no\<close> selects (a line of the file,
  numbered from 1), \<open>count_columns\<close> returns the number of occurrences of the separator
  in that line plus one: the line \<^verbatim>\<open>linecache\<close> hands out ends with exactly one
  \<^verbatim>\<open>'\n'\<close>, which is the second summand of the source.
\<close>

theorem count_columns_separators_plus_one:
  assumes "1 \<le> line_no" and "line_no \<le> int (length (linecache_getlines content))"
  shows "count_columns content sep line_no
           = int (str_count sep (linecache_getline content line_no)) + 1"
proof -
  let ?l = "linecache_getline content line_no"
  have eq: "?l = linecache_getlines content ! nat (line_no - 1)"
    using assms by (simp add: linecache_getline_def Let_def)
  have "nat (line_no - 1) < length (linecache_getlines content)" using assms by linarith
  then have "linecache_getlines content ! nat (line_no - 1) \<in> set (linecache_getlines content)"
    by (rule nth_mem)
  with eq have "?l \<in> set (linecache_getlines content)" by simp
  then have "count_list ?l newline = 1" using linecache_line_shape one_newline by blast
  then show ?thesis by (simp add: count_columns_def Let_def str_count_char)
qed

theorem count_columns_separators_plus_one_witness:
  "(1::int) \<le> 1
   \<and> 1 \<le> int (length (linecache_getlines (''0'' @ [tab] @ ''1'' @ [tab] @ ''2'')))
   \<and> count_columns (''0'' @ [tab] @ ''1'' @ [tab] @ ''2'') [tab] 1 = 3"
proof -
  let ?c = "''0'' @ [tab] @ ''1'' @ [tab] @ ''2''"
  have h1: "(1::int) \<le> 1" by simp
  have h2: "1 \<le> int (length (linecache_getlines ?c))"
    by (simp add: linecache_getlines_def newline_def tab_def Let_def suffix_to_prefix)
  have l: "linecache_getline ?c 1 = ?c @ [newline]"
    by (simp add: linecache_getline_def linecache_getlines_def newline_def tab_def Let_def
        suffix_to_prefix)
  have n: "str_count [tab] (?c @ [newline]) = 2"
    by (simp add: str_count.simps newline_def tab_def)
  from count_columns_separators_plus_one[OF h1 h2, of "[tab]"] h2 l n show ?thesis by simp
qed

subsection \<open>Column names of a \<^verbatim>\<open>.xy\<close> file\<close>

lemma append_components_unsuffixed:
  "q \<le> 1 \<Longrightarrow> append_components names (PyFloat q) fs = Inr (names @ fs)"
  by (induction fs arbitrary: names) (simp_all add: field_components_def)

lemma first_field_pos_cases:
  assumes "first_field_pos field_names columns_count = Inr pos"
  shows "(pos = 1 \<and> length (drop 1 field_names) \<noteq> 0
            \<and> (columns_count - 1) mod int (length (drop 1 field_names)) = 0)
       \<or> (pos = 3 \<and> length (drop 3 field_names) \<noteq> 0
            \<and> (columns_count - 3) mod int (length (drop 3 field_names)) = 0)
       \<or> (pos = 0 \<and> field_names \<noteq> [])"
  using assms
  by (auto simp: first_field_pos_def py_mod_def split: if_splits sum.splits)

text \<open>
  Claim C1. The claim says that the file \<^verbatim>\<open>U.xy\<close> with four columns gets the names
  \<^verbatim>\<open>U.0\<close> to \<^verbatim>\<open>U.3\<close>. In the source the test of line 134 divides by
  \<^verbatim>\<open>len(field_names[1:])\<close>, which is zero for a stem of one token: the call raises
  \<^verbatim>\<open>ZeroDivisionError\<close> before \<^verbatim>\<open>pos = 0\<close> is ever used.
\<close>

theorem single_token_stem_raises:
  "load_xy_names ''U'' (''0'' @ [tab] @ ''1'' @ [tab] @ ''2'' @ [tab] @ ''3'' @ [newline])
     = Inl ZeroDivisionError"
  by (simp add: load_xy_names_def infer_names_def first_field_pos_def py_mod_def)

text \<open>
  Claim C2, as stated, fails: with the tokens \<^verbatim>\<open>a\<close>, \<^verbatim>\<open>b\<close>, \<^verbatim>\<open>c\<close> and two
  columns the source chooses \<^verbatim>\<open>pos = 0\<close>, two is not divisible by three, and the
  inference returns a list of names without any error.
\<close>

theorem indivisible_count_returns_names:
  "first_field_pos [''a'', ''b'', ''c''] 2 = Inr 0
   \<and> (2 - int 0) mod int (length (drop 0 [''a'', ''b'', ''c''])) \<noteq> 0
   \<and> infer_names [''a'', ''b'', ''c''] 2 = Inr [''a'', ''a'', ''b'', ''c'']"
  by (simp add: infer_names_def first_field_pos_def py_mod_def construct_names_def
      py_truediv_def field_components_def)

text \<open>
  Claim C2, amended. The source has no divisibility check. When \<open>columns_count - pos\<close> is
  not divisible by the number of tokens from \<open>pos\<close> onward, \<open>pos\<close> is 0; when moreover
  the column count is smaller than the number of tokens, the quotient is at most 1, no
  error is signalled and the names are the first token followed by every token,
  without suffix.
\<close>

theorem infer_names_fewer_columns_than_tokens:
  assumes "first_field_pos field_names columns_count = Inr pos"
    and "(columns_count - int pos) mod int (length (drop pos field_names)) \<noteq> 0"
    and "columns_count - int pos < int (length (drop pos field_names))"
  shows "pos = 0 \<and> infer_names field_names columns_count = Inr (hd field_names # field_names)"
proof -
  from first_field_pos_cases[OF assms(1)] assms(2)
  have p0: "pos = 0" and ne: "field_names \<noteq> []" by auto
  obtain first rest where fn: "field_names = first # rest" using ne by (cases field_names) auto
  have q: "(of_int columns_count :: rat) / of_int (int (length field_names)) \<le> 1"
    using assms(3) p0 ne by (simp add: divide_le_eq_1)
  have "construct_names field_names columns_count 0 = Inr (first # field_names)"
    using q fn
    by (simp add: construct_names_def py_truediv_def field_components_def
        append_components_unsuffixed del: of_int_of_nat_eq)
  then show ?thesis using p0 assms(1) fn by (simp add: infer_names_def)
qed

theorem infer_names_fewer_columns_than_tokens_witness:
  "first_field_pos [''p'', ''q'', ''r'', ''s''] 3 = Inr 0
   \<and> (3 - int 0) mod int (length (drop 0 [''p'', ''q'', ''r'', ''s''])) \<noteq> 0
   \<and> 3 - int 0 < int (length (drop 0 [''p'', ''q'', ''r'', ''s'']))
   \<and> infer_names [''p'', ''q'', ''r'', ''s''] 3 = Inr [''p'', ''p'', ''q'', ''r'', ''s'']"
proof -
  have h1: "first_field_pos [''p'', ''q'', ''r'', ''s''] 3 = Inr 0"
    by (simp add: first_field_pos_def py_mod_def)
  have h2: "(3 - int 0) mod int (length (drop 0 [''p'', ''q'', ''r'', ''s''])) \<noteq> 0" by simp
  have h3: "3 - int 0 < int (length (drop 0 [''p'', ''q'', ''r'', ''s'']))" by simp
  from infer_names_fewer_columns_than_tokens[OF h1 h2 h3] h1 h2 h3 show ?thesis by simp
qed

subsection \<open>Loading a single file\<close>

lemma kept_rows_filter:
  "kept_rows (\<lambda>m. Inr (p m)) n ls
     = Inr (map ((!) ls) (filter (\<lambda>i. \<not> p (n + int i)) [0..<length ls]))"
proof (induction ls arbitrary: n)
  case Nil
  show ?case by simp
next
  case (Cons l ls)
  have up: "[0..<length (l # ls)] = 0 # map Suc [0..<length ls]"
    by (simp add: upt_conv_Cons map_Suc_upt del: upt_Suc)
  have sh: "map ((!) (l # ls)) (filter (\<lambda>i. \<not> p (n + int i)) (map Suc [0..<length ls]))
          = map ((!) ls) (filter (\<lambda>i. \<not> p (n + 1 + int i)) [0..<length ls])"
    by (simp add: filter_map comp_def add.assoc)
  show ?case
    unfolding up using sh by (simp add: Cons.IH del: upt_Suc)
qed

lemma skiprows_Some:
  "skiprows (Some h) use_nth m
     = Inr (case use_nth of None \<Rightarrow> False | Some k \<Rightarrow> k \<ge> 2 \<and> m > h \<and> m mod k \<noteq> 0)"
  by (simp add: skiprows_def split: option.splits)

lemma kept_rows_header:
  assumes "h < length ls"
  shows "kept_rows (skiprows (Some (int h)) use_nth) 0 ls
     = Inr (take (Suc h) ls @ map ((!) ls)
         (filter (\<lambda>i. \<not> (case use_nth of None \<Rightarrow> False | Some k \<Rightarrow> k \<ge> 2 \<and> int i mod k \<noteq> 0))
            [Suc h..<length ls]))"
proof -
  let ?p = "\<lambda>m. case use_nth of None \<Rightarrow> False | Some k \<Rightarrow> k \<ge> 2 \<and> m > int h \<and> m mod k \<noteq> 0"
  have e: "Suc h + (length ls - Suc h) = length ls" using assms by simp
  have "[0..<Suc h + (length ls - Suc h)] = [0..<Suc h] @ [Suc h..<Suc h + (length ls - Suc h)]"
    by (rule upt_add_eq_append) simp
  then have sp: "[0..<length ls] = [0..<Suc h] @ [Suc h..<length ls]" by (simp only: e)
  have sk: "skiprows (Some (int h)) use_nth = (\<lambda>m. Inr (?p m))"
    by (rule ext) (simp add: skiprows_Some)
  have a: "filter (\<lambda>i. \<not> ?p (0 + int i)) [0..<Suc h] = [0..<Suc h]"
    by (rule filter_True) (auto split: option.splits)
  have b: "filter (\<lambda>i. \<not> ?p (0 + int i)) [Suc h..<length ls]
         = filter (\<lambda>i. \<not> (case use_nth of None \<Rightarrow> False | Some k \<Rightarrow> k \<ge> 2 \<and> int i mod k \<noteq> 0))
            [Suc h..<length ls]"
    by (rule filter_cong) (auto split: option.splits)
  have c: "map ((!) ls) [0..<Suc h] = take (Suc h) ls"
  proof -
    have "take (Suc h) (map ((!) ls) [0..<length ls]) = map ((!) ls) (take (Suc h) [0..<length ls])"
      by (rule take_map)
    moreover have "take (Suc h) [0..<length ls] = [0..<0 + Suc h]"
      by (rule take_upt) (use assms in simp)
    ultimately show ?thesis by (simp only: map_nth add_0)
  qed
  have "kept_rows (skiprows (Some (int h)) use_nth) 0 ls
      = Inr (map ((!) ls) (filter (\<lambda>i. \<not> ?p (0 + int i)) [0..<length ls]))"
    unfolding sk by (rule kept_rows_filter)
  also have "\<dots> = Inr (map ((!) ls) [0..<Suc h] @ map ((!) ls)
         (filter (\<lambda>i. \<not> ?p (0 + int i)) [Suc h..<length ls]))"
    by (subst sp) (simp only: filter_append map_append a)
  finally show ?thesis by (simp only: b c)
qed

lemma select_rows_header:
  assumes "h < length ls"
  shows "select_rows (Some (int h)) (skiprows (Some (int h)) use_nth) ls
     = Inr (Some (ls ! h), map ((!) ls)
         (filter (\<lambda>i. \<not> (case use_nth of None \<Rightarrow> False | Some k \<Rightarrow> k \<ge> 2 \<and> int i mod k \<noteq> 0))
            [Suc h..<length ls]))"
  using assms
  by (simp add: select_rows_def kept_rows_header nth_append min_def del: upt_Suc)


lemma header_scan_bounds:
  "header_scan c i ls = Some b \<Longrightarrow> i \<le> b + 1 \<and> b + 1 < i + int (length ls)"
proof (induction ls arbitrary: i)
  case Nil
  then show ?case by simp
next
  case (Cons a ls)
  show ?case
  proof (cases "prefix c a")
    case True
    with Cons.prems have "header_scan c (i + 1) ls = Some b" by simp
    from Cons.IH[OF this] show ?thesis by simp
  next
    case False
    with Cons.prems show ?thesis by auto
  qed
qed

lemma get_header_size_bounds:
  assumes "get_header_size c ls = Some (int h)"
  shows "h < length ls"
  using header_scan_bounds[of c 0 ls "int h"] assms by (simp add: get_header_size_def)

lemma readlines_Nil: "readlines s = [] \<longleftrightarrow> s = []"
  by (cases s) (simp_all split: list.splits)

lemma kept_rows_no_decimation: "kept_rows (\<lambda>n. Inr False) n ls = Inr ls"
  by (induction ls arbitrary: n) simp_all

lemma load_dat_file:
  "fs filepath = Some (File content) \<Longrightarrow>
     load_dat parse to_float fs usecols use_nth filepath
       = load parse to_float usecols use_nth (readlines content)"
  by (simp add: load_dat_def load_file_def)

text \<open>With a header boundary \<open>h\<close>, \<^verbatim>\<open>load\<close> has the line \<open>h\<close> parsed as the row of
  column names and, as data rows, the later lines that \<^verbatim>\<open>skiprows\<close> leaves.\<close>

lemma load_with_header:
  assumes "get_header_size ''#'' lines = Some (int h)"
  shows "load parse to_float usecols use_nth lines
       = after_read_csv to_float
           (parse (Some (lines ! h))
              (map ((!) lines)
                 (filter (\<lambda>i. \<not> (case use_nth of None \<Rightarrow> False
                                  | Some k \<Rightarrow> k \<ge> 2 \<and> int i mod k \<noteq> 0))
                    [Suc h..<length lines]))
              (map_option (\<lambda>u. 0 # u) usecols))"
proof -
  have h: "h < length lines" using assms by (rule get_header_size_bounds)
  show ?thesis
    unfolding load_def Let_def assms read_csv_def select_rows_header[OF h] by simp
qed

text \<open>Without a header boundary the table is read without a header row, \<^verbatim>\<open>n > None\<close>
  raises when rows are to be decimated, and the name of the index is no string.\<close>

lemma load_without_header:
  assumes "get_header_size ''#'' lines = None" and "lines \<noteq> []"
  shows "(\<exists>k. use_nth = Some k \<and> 2 \<le> k) \<Longrightarrow>
           load parse to_float usecols use_nth lines = Inl TypeError"
    and "\<not> (\<exists>k. use_nth = Some k \<and> 2 \<le> k) \<Longrightarrow>
           parse None lines (map_option (\<lambda>u. 0 # u) usecols) = Inl e \<Longrightarrow>
           load parse to_float usecols use_nth lines = Inl e"
    and "\<not> (\<exists>k. use_nth = Some k \<and> 2 \<le> k) \<Longrightarrow>
           parse None lines (map_option (\<lambda>u. 0 # u) usecols) = Inr dat \<Longrightarrow>
           load parse to_float usecols use_nth lines = Inl AttributeError"
proof -
  obtain l ls where ls: "lines = l # ls" using assms(2) by (cases lines) auto
  show "load parse to_float usecols use_nth lines = Inl TypeError"
    if "\<exists>k. use_nth = Some k \<and> 2 \<le> k"
  proof -
    from that obtain k where k: "use_nth = Some k" "2 \<le> k" by blast
    have "skiprows None use_nth = (\<lambda>n. Inl TypeError)"
      by (rule ext) (simp add: skiprows_def k)
    then show ?thesis
      unfolding load_def Let_def assms(1) read_csv_def select_rows_def
      by (simp add: after_read_csv_def ls)
  qed
  have sk: "skiprows None use_nth = (\<lambda>n. Inr False)"
    if "\<not> (\<exists>k. use_nth = Some k \<and> 2 \<le> k)"
    by (rule ext) (use that in \<open>auto simp: skiprows_def split: option.splits\<close>)
  show "load parse to_float usecols use_nth lines = Inl e"
    if "\<not> (\<exists>k. use_nth = Some k \<and> 2 \<le> k)"
      and "parse None lines (map_option (\<lambda>u. 0 # u) usecols) = Inl e"
    unfolding load_def Let_def assms(1) read_csv_def select_rows_def sk[OF that(1)]
      kept_rows_no_decimation
    using assms(2) that(2) by (simp add: after_read_csv_def)
  show "load parse to_float usecols use_nth lines = Inl AttributeError"
    if "\<not> (\<exists>k. use_nth = Some k \<and> 2 \<le> k)"
      and "parse None lines (map_option (\<lambda>u. 0 # u) usecols) = Inr dat"
    unfolding load_def Let_def assms(1) read_csv_def select_rows_def sk[OF that(1)]
      kept_rows_no_decimation
    using assms(2) that(2) by (simp add: after_read_csv_def strip_names_def)
qed

subsection \<open>A \<^verbatim>\<open>.dat\<close> file without a header row\<close>

text \<open>
  Claim C3, as stated, fails: \<^verbatim>\<open>load_dat\<close> has no error of its own for a file without a
  header row. The header scan returns \<open>-1\<close> or \<^verbatim>\<open>None\<close> without objecting, and the call
  fails later, with a different exception for each kind of file: the \<^verbatim>\<open>ValueError\<close>
  of \<^verbatim>\<open>pd.read_csv\<close> for a negative \<^verbatim>\<open>header\<close> when the first line is data, its
  \<^verbatim>\<open>EmptyDataError\<close> for the empty file, and for a file of comment lines the
  \<^verbatim>\<open>AttributeError\<close> of line 89 or, when rows are to be decimated, the
  \<^verbatim>\<open>TypeError\<close> of line 84.
\<close>

theorem no_header_row_fails_with_unrelated_errors:
  "get_header_size ''#'' (readlines (file_of_lines [tabbed [''1'', ''2'']])) = Some (- 1)
   \<and> load_dat rows_parser (\<lambda>s. None) monitor_case None None [''data.dat''] = Inl negative_header
   \<and> get_header_size ''#'' (readlines []) = None
   \<and> load_dat rows_parser (\<lambda>s. None) monitor_case None None [''empty.dat''] = Inl EmptyDataError
   \<and> get_header_size ''#'' (readlines (file_of_lines [''# t''])) = None
   \<and> load_dat rows_parser (\<lambda>s. None) monitor_case None None [''comments.dat'']
       = Inl AttributeError
   \<and> load_dat rows_parser (\<lambda>s. None) monitor_case None (Some 2) [''comments.dat'']
       = Inl TypeError
   \<and> negative_header \<noteq> EmptyDataError \<and> negative_header \<noteq> AttributeError
   \<and> negative_header \<noteq> TypeError"
  by code_simp

text \<open>
  Claim C3, amended. When \<^verbatim>\<open>load_dat\<close> is given a file that is empty, or whose first
  line is no comment line, or whose lines are all comment lines, it returns no table.
  The header scan signals nothing (it returns \<^verbatim>\<open>None\<close>, \<open>-1\<close> and \<^verbatim>\<open>None\<close>), and
  the call fails with \<^verbatim>\<open>EmptyDataError\<close> for the empty file, with the
  \<^verbatim>\<open>ValueError\<close> for a negative \<^verbatim>\<open>header\<close> when the first line is no comment line,
  and for a file of comment lines with \<^verbatim>\<open>TypeError\<close> when \<^verbatim>\<open>use_nth\<close> is 2 or more,
  otherwise with the exception of the parser or, when the parser returns a table, with
  \<^verbatim>\<open>AttributeError\<close>.
\<close>

theorem no_header_row_fails_after_the_scan:
  assumes "fs filepath = Some (File content)"
  shows "(content = [] \<longrightarrow>
            get_header_size ''#'' (readlines content) = None
          \<and> load_dat parse to_float fs usecols use_nth filepath = Inl EmptyDataError)
       \<and> ((\<exists>l rest. readlines content = l # rest \<and> \<not> prefix ''#'' l) \<longrightarrow>
            get_header_size ''#'' (readlines content) = Some (- 1)
          \<and> load_dat parse to_float fs usecols use_nth filepath = Inl negative_header)
       \<and> (content \<noteq> [] \<and> (\<forall>l \<in> set (readlines content). prefix ''#'' l) \<longrightarrow>
            get_header_size ''#'' (readlines content) = None
          \<and> (\<exists>e. load_dat parse to_float fs usecols use_nth filepath = Inl e)
          \<and> ((\<exists>k. use_nth = Some k \<and> 2 \<le> k) \<longrightarrow>
                load_dat parse to_float fs usecols use_nth filepath = Inl TypeError)
          \<and> (\<forall>dat. \<not> (\<exists>k. use_nth = Some k \<and> 2 \<le> k)
                   \<and> parse None (readlines content) (map_option (\<lambda>u. 0 # u) usecols) = Inr dat \<longrightarrow>
                load_dat parse to_float fs usecols use_nth filepath = Inl AttributeError))"
proof (intro conjI impI)
  note ld = load_dat_file[where fs = fs and filepath = filepath and content = content
      and parse = parse and to_float = to_float and usecols = usecols and use_nth = use_nth,
      OF assms]
  {
    assume "content = []"
    then show "get_header_size ''#'' (readlines content) = None"
      by (simp add: get_header_size_def)
    assume "content = []"
    then show "load_dat parse to_float fs usecols use_nth filepath = Inl EmptyDataError"
      unfolding ld
      by (simp add: load_def get_header_size_def read_csv_def select_rows_def after_read_csv_def)
  }
  {
    assume "\<exists>l rest. readlines content = l # rest \<and> \<not> prefix ''#'' l"
    then obtain l rest where l: "readlines content = l # rest" "\<not> prefix ''#'' l" by blast
    then show g: "get_header_size ''#'' (readlines content) = Some (- 1)"
      by (simp add: get_header_size_def)
    show "load_dat parse to_float fs usecols use_nth filepath = Inl negative_header"
      unfolding ld load_def Let_def g
      by (simp add: read_csv_def select_rows_def after_read_csv_def)
  }
  {
    assume a: "content \<noteq> [] \<and> (\<forall>l \<in> set (readlines content). prefix ''#'' l)"
    then have ne: "readlines content \<noteq> []" by (simp add: readlines_Nil)
    from a show g: "get_header_size ''#'' (readlines content) = None"
      by (simp add: get_header_size_def header_scan_all_comment)
    note lw = load_without_header[OF g ne, where use_nth = use_nth and parse = parse
        and to_float = to_float and usecols = usecols]
    show "\<exists>e. load_dat parse to_float fs usecols use_nth filepath = Inl e"
    proof (cases "\<exists>k. use_nth = Some k \<and> 2 \<le> k")
      case True
      from lw(1)[OF True] show ?thesis unfolding ld by blast
    next
      case False
      show ?thesis
      proof (cases "parse None (readlines content) (map_option (\<lambda>u. 0 # u) usecols)")
        case (Inl e)
        from lw(2)[OF False Inl] show ?thesis unfolding ld by blast
      next
        case (Inr dat)
        from lw(3)[OF False Inr] show ?thesis unfolding ld by blast
      qed
    qed
    show "load_dat parse to_float fs usecols use_nth filepath = Inl TypeError"
      if "\<exists>k. use_nth = Some k \<and> 2 \<le> k"
      unfolding ld using lw(1)[OF that] .
    show "\<forall>dat. \<not> (\<exists>k. use_nth = Some k \<and> 2 \<le> k)
                   \<and> parse None (readlines content) (map_option (\<lambda>u. 0 # u) usecols) = Inr dat \<longrightarrow>
                load_dat parse to_float fs usecols use_nth filepath = Inl AttributeError"
      unfolding ld using lw(3) by blast
  }
qed

text \<open>
  The theorem at the three files of the examples: the empty file, the file that starts
  with data, and the file of one comment line.
\<close>

theorem no_header_row_fails_after_the_scan_witness:
  "monitor_case [''empty.dat''] = Some (File [])
   \<and> load_dat rows_parser (\<lambda>s. None) monitor_case None None [''empty.dat''] = Inl EmptyDataError
   \<and> monitor_case [''data.dat''] = Some (File (file_of_lines [tabbed [''1'', ''2'']]))
   \<and> readlines (file_of_lines [tabbed [''1'', ''2'']]) = [tabbed [''1'', ''2''] @ [newline]]
   \<and> \<not> prefix ''#'' (tabbed [''1'', ''2''] @ [newline])
   \<and> load_dat rows_parser (\<lambda>s. None) monitor_case None None [''data.dat''] = Inl negative_header
   \<and> monitor_case [''comments.dat''] = Some (File (file_of_lines [''# t'']))
   \<and> file_of_lines [''# t''] \<noteq> []
   \<and> readlines (file_of_lines [''# t'']) = [''# t'' @ [newline]]
   \<and> prefix ''#'' (''# t'' @ [newline])
   \<and> load_dat rows_parser (\<lambda>s. None) monitor_case None (Some 2) [''comments.dat'']
       = Inl TypeError"
proof -
  have e: "monitor_case [''empty.dat''] = Some (File [])" by (simp add: monitor_case_def)
  have d: "monitor_case [''data.dat''] = Some (File (file_of_lines [tabbed [''1'', ''2'']]))"
    by (simp add: monitor_case_def)
  have dl: "readlines (file_of_lines [tabbed [''1'', ''2'']]) = [tabbed [''1'', ''2''] @ [newline]]"
    by code_simp
  have dp: "\<not> prefix ''#'' (tabbed [''1'', ''2''] @ [newline])" by code_simp
  have c: "monitor_case [''comments.dat''] = Some (File (file_of_lines [''# t'']))"
    by (simp add: monitor_case_def)
  have cn: "file_of_lines [''# t''] \<noteq> []" by (simp add: file_of_lines_def)
  have cl: "readlines (file_of_lines [''# t'']) = [''# t'' @ [newline]]" by code_simp
  have cp: "prefix ''#'' (''# t'' @ [newline])" by simp
  from no_header_row_fails_after_the_scan[where fs = monitor_case and filepath = "[''empty.dat'']"
      and content = "[]" and parse = rows_parser and to_float = "\<lambda>s. None"
      and usecols = None and use_nth = "None", OF e]
  have r1: "load_dat rows_parser (\<lambda>s. None) monitor_case None None [''empty.dat'']
              = Inl EmptyDataError" by simp
  from no_header_row_fails_after_the_scan[where fs = monitor_case and filepath = "[''data.dat'']"
      and content = "file_of_lines [tabbed [''1'', ''2'']]" and parse = rows_parser and to_float = "\<lambda>s. None"
      and usecols = None and use_nth = "None", OF d] dl dp
  have r2: "load_dat rows_parser (\<lambda>s. None) monitor_case None None [''data.dat'']
              = Inl negative_header" by simp
  from no_header_row_fails_after_the_scan[where fs = monitor_case and filepath = "[''comments.dat'']"
      and content = "file_of_lines [''# t'']" and parse = rows_parser and to_float = "\<lambda>s. None"
      and usecols = None and use_nth = "Some 2", OF c] cn cl cp
  have r3: "load_dat rows_parser (\<lambda>s. None) monitor_case None (Some 2) [''comments.dat'']
              = Inl TypeError" by simp
  from e d dl dp c cn cl cp r1 r2 r3 show ?thesis by blast
qed

subsection \<open>Rows read from a \<^verbatim>\<open>.dat\<close> file\<close>

text \<open>
  Claim C5, as stated, fails. With two comment lines and \<^verbatim>\<open>use_nth = 2\<close>,
  \<^verbatim>\<open>load_dat\<close> keeps the first and third data rows, where the offset rule of the claim
  keeps the second and fourth; with one comment line before the same data rows it keeps
  the second and fourth: the rows retained depend on the number of header lines.
\<close>

theorem decimation_depends_on_header_length:
  "load_dat rows_parser (\<lambda>s. None) monitor_case None (Some 2) [''two.dat'']
     = Inr \<lparr>index_name = Some ''t'',
            index = [Str (''r1'' @ [newline]), Str (''r3'' @ [newline])], columns = []\<rparr>
   \<and> get_header_size ''#'' (readlines two_headers) = Some 1
   \<and> spec_decimated 1 2 (readlines two_headers) = [''r2'' @ [newline], ''r4'' @ [newline]]
   \<and> load_dat rows_parser (\<lambda>s. None) monitor_case None (Some 2) [''one.dat'']
     = Inr \<lparr>index_name = Some ''t'',
            index = [Str (''r2'' @ [newline]), Str (''r4'' @ [newline])], columns = []\<rparr>"
  by code_simp

text \<open>
  Claim C5, amended. For every \<^verbatim>\<open>.dat\<close> file with a header row and every
  \<^verbatim>\<open>use_nth\<close> of at least 2, \<^verbatim>\<open>load_dat\<close> reads the header row and, as data rows,
  exactly the lines after it whose zero-based line number in the file is divisible by
  \<^verbatim>\<open>use_nth\<close>: the test of line 84 is \<^verbatim>\<open>n % use_nth\<close> on the line number, not on the
  offset beyond the header.
\<close>

theorem decimation_by_line_number:
  assumes "fs filepath = Some (File content)"
    and "2 \<le> k" and "get_header_size ''#'' (readlines content) = Some (int h)"
  shows "load_dat parse to_float fs usecols (Some k) filepath
       = after_read_csv to_float
           (parse (Some (readlines content ! h))
              (map ((!) (readlines content))
                 (filter (\<lambda>n. int n mod k = 0) [Suc h..<length (readlines content)]))
              (map_option (\<lambda>u. 0 # u) usecols))"
proof -
  have f: "filter (\<lambda>i. \<not> (case Some k of None \<Rightarrow> False | Some k \<Rightarrow> k \<ge> 2 \<and> int i mod k \<noteq> 0))
             [Suc h..<length (readlines content)]
         = filter (\<lambda>n. int n mod k = 0) [Suc h..<length (readlines content)]"
    using assms(2) by simp
  show ?thesis
    unfolding load_dat_file[where fs = fs and filepath = filepath and content = content,
        OF assms(1)] load_with_header[OF assms(3)] f ..
qed

text \<open>
  The theorem at the file with two comment lines, four data rows and \<^verbatim>\<open>use_nth = 2\<close>.
\<close>

theorem decimation_by_line_number_witness:
  "monitor_case [''two.dat''] = Some (File two_headers)
   \<and> (2::int) \<le> 2
   \<and> get_header_size ''#'' (readlines two_headers) = Some (int 1)
   \<and> load_dat rows_parser (\<lambda>s. None) monitor_case None (Some 2) [''two.dat'']
     = Inr \<lparr>index_name = Some ''t'',
            index = [Str (''r1'' @ [newline]), Str (''r3'' @ [newline])], columns = []\<rparr>"
proof -
  have h1: "monitor_case [''two.dat''] = Some (File two_headers)" by (simp add: monitor_case_def)
  have h2: "(2::int) \<le> 2" by simp
  have h3: "get_header_size ''#'' (readlines two_headers) = Some (int 1)" by code_simp
  have "load_dat rows_parser (\<lambda>s. None) monitor_case None (Some 2) [''two.dat'']
      = after_read_csv (\<lambda>s. None)
           (rows_parser (Some (readlines two_headers ! 1))
              (map ((!) (readlines two_headers))
                 (filter (\<lambda>n. int n mod 2 = 0) [Suc 1..<length (readlines two_headers)]))
              (map_option (\<lambda>u. 0 # u) None))"
    by (rule decimation_by_line_number[where fs = monitor_case and filepath = "[''two.dat'']"
          and content = two_headers and k = 2 and h = 1, OF h1 h2 h3])
  also have "\<dots> = Inr \<lparr>index_name = Some ''t'',
            index = [Str (''r1'' @ [newline]), Str (''r3'' @ [newline])], columns = []\<rparr>"
    by code_simp
  finally show ?thesis using h1 h2 h3 by blast
qed

subsection \<open>The row of column names\<close>

lemma map_nth_from: "map ((!) xs) [n..<length xs] = drop n xs"
proof -
  have "drop n (map ((!) xs) [0..<length xs]) = map ((!) xs) [n..<length xs]"
    by (simp add: drop_map)
  then show ?thesis by (simp only: map_nth)
qed

text \<open>
  Claim C7. For every file that starts with at least one comment line followed by a line
  that is no comment, the boundary plus one is the zero-based index of that line (the
  number of leading comment lines), the line at the boundary is the last comment line,
  and \<^verbatim>\<open>load_dat\<close>, whose comment marker is \<^verbatim>\<open>#\<close>, has this line parsed as the row
  of column names, with the later lines that \<^verbatim>\<open>skiprows\<close> leaves as the data rows:
  all of them without decimation.
\<close>

theorem header_boundary_is_last_comment_line:
  assumes "cs \<noteq> []" and "\<forall>l \<in> set cs. prefix comment l" and "\<not> prefix comment d"
  shows "\<exists>b. get_header_size comment (cs @ d # rest) = Some b
           \<and> b + 1 = int (length cs)
           \<and> 0 \<le> b
           \<and> (cs @ d # rest) ! nat b = last cs
           \<and> (comment = ''#'' \<and> fs filepath = Some (File content)
                \<and> readlines content = cs @ d # rest \<longrightarrow>
                load_dat parse to_float fs usecols use_nth filepath
                  = after_read_csv to_float
                      (parse (Some ((cs @ d # rest) ! nat b))
                         (map ((!) (cs @ d # rest))
                            (filter (\<lambda>i. \<not> (case use_nth of None \<Rightarrow> False
                                             | Some k \<Rightarrow> k \<ge> 2 \<and> int i mod k \<noteq> 0))
                               [nat b + 1..<length (cs @ d # rest)]))
                         (map_option (\<lambda>u. 0 # u) usecols))
              \<and> load_dat parse to_float fs usecols None filepath
                  = after_read_csv to_float
                      (parse (Some (last cs)) (d # rest) (map_option (\<lambda>u. 0 # u) usecols)))"
proof -
  let ?ls = "cs @ d # rest"
  let ?h = "length cs - 1"
  let ?kept = "\<lambda>use_nth. map ((!) ?ls)
                 (filter (\<lambda>i. \<not> (case use_nth of None \<Rightarrow> False
                                  | Some k \<Rightarrow> k \<ge> 2 \<and> int i mod k \<noteq> 0))
                    [Suc ?h..<length ?ls])"
  have g: "get_header_size comment ?ls = Some (int (length cs) - 1)"
    using header_scan_first_data[OF assms(2,3), of 0 rest] by (simp add: get_header_size_def)
  have hb: "int ?h = int (length cs) - 1" using assms(1) by (cases cs) simp_all
  have gh: "get_header_size comment ?ls = Some (int ?h)" using g hb by simp
  have n: "?ls ! ?h = last cs" using assms(1) by (simp add: nth_append last_conv_nth)
  have nn: "nat (int ?h) = ?h" by simp
  have sh: "Suc ?h = length cs" using assms(1) by (cases cs) simp_all
  have all: "?kept None = d # rest"
    unfolding sh using map_nth_from[of ?ls "length cs"] by simp
  have ld: "load_dat parse to_float fs usecols nth filepath
              = after_read_csv to_float
                  (parse (Some (?ls ! ?h)) (?kept nth) (map_option (\<lambda>u. 0 # u) usecols))"
    if "comment = ''#'' \<and> fs filepath = Some (File content) \<and> readlines content = ?ls" for nth
  proof -
    from that have f: "fs filepath = Some (File content)" and r: "readlines content = ?ls"
      and c: "comment = ''#''" by simp_all
    have gl: "get_header_size ''#'' ?ls = Some (int ?h)" using gh c by simp
    show ?thesis
      unfolding load_dat_file[where fs = fs and filepath = filepath and content = content, OF f] r
      by (rule load_with_header[OF gl])
  qed
  show ?thesis
  proof (intro exI[of _ "int ?h"] conjI impI)
    show "get_header_size comment ?ls = Some (int ?h)" by (rule gh)
    show "int ?h + 1 = int (length cs)" using hb by simp
    show "0 \<le> int ?h" by simp
    show "?ls ! nat (int ?h) = last cs" unfolding nn by (rule n)
    assume a: "comment = ''#'' \<and> fs filepath = Some (File content) \<and> readlines content = ?ls"
    show "load_dat parse to_float fs usecols use_nth filepath
            = after_read_csv to_float
                (parse (Some (?ls ! nat (int ?h)))
                   (map ((!) ?ls)
                      (filter (\<lambda>i. \<not> (case use_nth of None \<Rightarrow> False
                                       | Some k \<Rightarrow> k \<ge> 2 \<and> int i mod k \<noteq> 0))
                         [nat (int ?h) + 1..<length ?ls]))
                   (map_option (\<lambda>u. 0 # u) usecols))"
      unfolding nn using ld[OF a, of use_nth] by simp
    show "load_dat parse to_float fs usecols None filepath
            = after_read_csv to_float
                (parse (Some (last cs)) (d # rest) (map_option (\<lambda>u. 0 # u) usecols))"
      using ld[OF a, of None] unfolding all n .
  qed
qed

text \<open>
  The scenario of the specification: three comment lines, then data; the boundary is 2,
  and the third comment line names the index.
\<close>

theorem header_boundary_is_last_comment_line_witness:
  "prefix ''#'' (''# case'' @ [newline]) \<and> prefix ''#'' (''# run'' @ [newline])
   \<and> prefix ''#'' (''# t'' @ [newline]) \<and> \<not> prefix ''#'' (''0.1'' @ [newline])
   \<and> monitor_case [''three.dat''] = Some (File three_headers)
   \<and> readlines three_headers
       = [''# case'' @ [newline], ''# run'' @ [newline], ''# t'' @ [newline]]
           @ (''0.1'' @ [newline]) # [''0.2'' @ [newline]]
   \<and> get_header_size ''#'' (readlines three_headers) = Some 2
   \<and> load_dat rows_parser (\<lambda>s. None) monitor_case None None [''three.dat'']
       = Inr \<lparr>index_name = Some ''t'',
              index = [Str (''0.1'' @ [newline]), Str (''0.2'' @ [newline])], columns = []\<rparr>"
proof -
  let ?cs = "[''# case'' @ [newline], ''# run'' @ [newline], ''# t'' @ [newline]]"
  let ?d = "''0.1'' @ [newline]"
  let ?rest = "[''0.2'' @ [newline]]"
  have h1: "?cs \<noteq> []" by simp
  have h2: "\<forall>l \<in> set ?cs. prefix ''#'' l" by simp
  have h3: "\<not> prefix ''#'' ?d" by simp
  have f: "monitor_case [''three.dat''] = Some (File three_headers)"
    by (simp add: monitor_case_def)
  have r: "readlines three_headers = ?cs @ ?d # ?rest" by code_simp
  from header_boundary_is_last_comment_line[where comment = "''#''" and cs = ?cs and d = ?d
      and rest = ?rest and fs = monitor_case and filepath = "[''three.dat'']"
      and content = three_headers and parse = rows_parser and to_float = "\<lambda>s. None"
      and usecols = None and use_nth = None, OF h1 h2 h3] f r
  obtain b where b: "get_header_size ''#'' (?cs @ ?d # ?rest) = Some b" "b + 1 = int (length ?cs)"
    and l: "load_dat rows_parser (\<lambda>s. None) monitor_case None None [''three.dat'']
              = after_read_csv (\<lambda>s. None)
                  (rows_parser (Some (last ?cs)) (?d # ?rest) (map_option (\<lambda>u. 0 # u) None))"
    by blast
  from b have g: "get_header_size ''#'' (readlines three_headers) = Some 2" unfolding r by simp
  have "after_read_csv (\<lambda>s. None)
          (rows_parser (Some (last ?cs)) (?d # ?rest) (map_option (\<lambda>u. 0 # u) None))
      = Inr \<lparr>index_name = Some ''t'',
              index = [Str (''0.1'' @ [newline]), Str (''0.2'' @ [newline])], columns = []\<rparr>"
    by code_simp
  with l have "load_dat rows_parser (\<lambda>s. None) monitor_case None None [''three.dat'']
       = Inr \<lparr>index_name = Some ''t'',
              index = [Str (''0.1'' @ [newline]), Str (''0.2'' @ [newline])], columns = []\<rparr>"
    by simp
  with h2 h3 f r g show ?thesis by simp
qed

subsection \<open>Merging a directory\<close>






text \<open>
  Claim C10. For a directory without any \<^verbatim>\<open>.dat\<close> file the set of file names is empty,
  its size is not 1, and \<^verbatim>\<open>load_dat\<close> raises the same \<^verbatim>\<open>ValueError\<close>, with the same
  message, as for a directory whose files have different names.
\<close>

theorem empty_directory_is_not_valid:
  "load_dat parse to_float (fs(dir \<mapsto> Dir [])) usecols use_nth dir
     = Inl (ValueError (path_str dir @ '' is not valid''))
   \<and> load_dat parse to_float (fs(dir \<mapsto> Dir [[''0'', ''U.dat''], [''0'', ''p.dat'']])) usecols use_nth dir
     = Inl (ValueError (path_str dir @ '' is not valid''))"
  by (simp add: load_dat_def path_name_def)





text \<open>
  The theorem at the case directory emptied of its files.
\<close>

theorem empty_directory_is_not_valid_witness:
  "load_dat rows_parser (\<lambda>s. None) (forces_case([''case''] \<mapsto> Dir [])) None None [''case'']
     = Inl (ValueError ''case is not valid'')
   \<and> load_dat rows_parser (\<lambda>s. None) mixed_case None None [''case'']
     = load_dat rows_parser (\<lambda>s. None) (forces_case([''case''] \<mapsto> Dir [])) None None [''case'']"
proof -
  have "load_dat rows_parser (\<lambda>s. None) mixed_case None None [''case'']
          = Inl (ValueError ''case is not valid'')"
    by (simp add: load_dat_def mixed_case_def path_name_def path_str_def)
  with empty_directory_is_not_valid[of rows_parser "\<lambda>s. None" forces_case "[''case'']" None None]
  show ?thesis by (simp add: path_str_def)
qed

subsection \<open>Expanding tuple columns\<close>








lemma index_of_Inr: "index_of key ls = Inr i \<Longrightarrow> i < length ls \<and> ls ! i = key"
  by (induction ls arbitrary: i) (auto split: if_splits sum.splits)
































end
